theory Spec2Isabelle
  imports Complex_Main "HOL-Library.Log_Nat"
begin

section \<open>JavaScript values read by \<^verbatim>\<open>src/App.jsx\<close>\<close>

text \<open>
  A property read from the catalogue's JSON is absent (\<open>Undefined\<close>), \<open>null\<close>, or a
  value. The fields the application reads (\<open>title\<close>, \<open>culture\<close>, \<open>century\<close>, \<open>dated\<close>,
  \<open>medium\<close>, \<open>primaryimageurl\<close>, and \<open>name\<close> of a contributor) are strings when present;
  \<open>records\<close> and \<open>people\<close> are arrays of objects when present. Other JSON types in
  these positions are outside this model.

  A string is a list of code units; a \<open>char\<close> stands for a code unit below 256.
\<close>

datatype 'a js = Undefined | Null | Val 'a

text \<open>Truthiness of a string-valued property: absent, \<open>null\<close> and \<open>""\<close> are falsy.\<close>

fun truthy :: "string js \<Rightarrow> bool" where
  "truthy Undefined = False"
| "truthy Null = False"
| "truthy (Val s) = (s \<noteq> [])"

text \<open>\<open>String(s)\<close>.\<close>

fun StringOf :: "string js \<Rightarrow> string" where
  "StringOf Undefined = ''undefined''"
| "StringOf Null = ''null''"
| "StringOf (Val s) = s"

text \<open>
  The white space and line terminators that \<open>String.prototype.trim\<close> strips, among the
  code units below 256: TAB, LF, VT, FF, CR, SP and NBSP.
\<close>

definition isWhiteSpace :: "char \<Rightarrow> bool" where
  "isWhiteSpace c =
     (c \<in> set [CHR 0x09, CHR 0x0A, CHR 0x0B, CHR 0x0C, CHR 0x0D, CHR 0x20, CHR 0xA0])"

definition trim :: "string \<Rightarrow> string" where
  "trim s = rev (dropWhile isWhiteSpace (rev (dropWhile isWhiteSpace s)))"

text \<open>\<open>v || d\<close> where \<open>d\<close> is a string literal: the value itself when it is truthy.\<close>

definition orDefault :: "string js \<Rightarrow> string \<Rightarrow> string" where
  "orDefault v d = (if truthy v then StringOf v else d)"

section \<open>Helpers (lines 32--33)\<close>

text \<open>
  \<^verbatim>\<open>const safe = (s) => (s && String(s).trim()) || "N/A";\<close>
  \<open>s && e\<close> is \<open>s\<close> itself when \<open>s\<close> is falsy, and \<open>e\<close> otherwise.
\<close>

definition safe :: "string js \<Rightarrow> string" where
  "safe s = orDefault (if truthy s then Val (trim (StringOf s)) else s) ''N/A''"

record contributor =
  name :: "string js"

record rawrecord =
  title :: "string js"
  people :: "contributor list js"
  culture :: "string js"
  century :: "string js"
  dated :: "string js"
  medium :: "string js"
  primaryimageurl :: "string js"

text \<open>
  \<^verbatim>\<open>r?.people?.[0]?.name\<close>: an absent, \<open>null\<close> or empty \<open>people\<close> gives
  \<open>undefined\<close>.
\<close>

definition firstContributor :: "rawrecord \<Rightarrow> string js" where
  "firstContributor r = (case people r of Val (p # ps) \<Rightarrow> name p | _ \<Rightarrow> Undefined)"

text \<open>\<^verbatim>\<open>const artistOf = (r) => safe(r?.people?.[0]?.name);\<close>\<close>

definition artistOf :: "rawrecord \<Rightarrow> string" where
  "artistOf r = safe (firstContributor r)"

section \<open>The ban list (lines 21--25, 35--46, 112)\<close>

text \<open>
  The state \<open>bans\<close> is an object whose properties are sets of strings. \<open>addBan\<close> and
  \<open>removeBan\<close> index it with a computed key, so it is a map from property names.
\<close>

type_synonym bans = "string \<rightharpoonup> string set"

definition initialBans :: bans where
  "initialBans = [''Artist'' \<mapsto> {}, ''Culture'' \<mapsto> {}, ''Century'' \<mapsto> {}]"

datatype exn = TypeError | RequestFailed

text \<open>
  The property names every object inherits from \<open>Object.prototype\<close>. Under such a name
  \<open>prev[attr]\<close> is a function (for \<open>__proto__\<close>, the prototype object), which is not
  iterable.
\<close>

definition objectPrototype :: "string list" where
  "objectPrototype =
     [''constructor'', ''__defineGetter__'', ''__defineSetter__'', ''hasOwnProperty'',
      ''__lookupGetter__'', ''__lookupSetter__'', ''isPrototypeOf'',
      ''propertyIsEnumerable'', ''toString'', ''valueOf'', ''__proto__'',
      ''toLocaleString'']"

text \<open>
  \<^verbatim>\<open>new Set(prev[attr])\<close>: a copy of the set stored under \<open>attr\<close>; the empty set when
  \<open>prev[attr]\<close> is \<open>undefined\<close>; a \<open>TypeError\<close> when it is not iterable.
\<close>

definition newSet :: "bans \<Rightarrow> string \<Rightarrow> exn + string set" where
  "newSet prev attr =
     (case prev attr of
        Some s \<Rightarrow> Inr s
      | None \<Rightarrow> if attr \<in> set objectPrototype then Inl TypeError else Inr {})"

text \<open>
  \<^verbatim>\<open>
  const addBan = (attr, value) => {
    if (!value || value === "N/A") return;
    setBans((prev) => ({ ...prev, [attr]: new Set(prev[attr]).add(value) }));
  };\<close>
\<close>

definition addBan :: "string \<Rightarrow> string \<Rightarrow> bans \<Rightarrow> exn + bans" where
  "addBan attr val prev =
     (if val = [] \<or> val = ''N/A'' then Inr prev
      else case newSet prev attr of
             Inl e \<Rightarrow> Inl e
           | Inr s \<Rightarrow> Inr (prev(attr \<mapsto> insert val s)))"

text \<open>
  \<^verbatim>\<open>
  const removeBan = (attr, value) => {
    setBans((prev) => {
      const next = new Set(prev[attr]);
      next.delete(value);
      return { ...prev, [attr]: next };
    });
  };\<close>
\<close>

definition removeBan :: "string \<Rightarrow> string \<Rightarrow> bans \<Rightarrow> exn + bans" where
  "removeBan attr val prev =
     (case newSet prev attr of
        Inl e \<Rightarrow> Inl e
      | Inr next \<Rightarrow> Inr (prev(attr \<mapsto> next - {val})))"

text \<open>
  The Clear Bans button:
  \<^verbatim>\<open>setBans({ Artist: new Set(), Culture: new Set(), Century: new Set() })\<close>
\<close>

definition clearBans :: "bans \<Rightarrow> bans" where
  "clearBans prev = [''Artist'' \<mapsto> {}, ''Culture'' \<mapsto> {}, ''Century'' \<mapsto> {}]"

text \<open>The ban lists a session can reach from the initial one.\<close>

inductive reachable :: "bans \<Rightarrow> bool" where
  reach_init: "reachable initialBans"
| reach_add: "reachable b \<Longrightarrow> addBan attr val b = Inr b' \<Longrightarrow> reachable b'"
| reach_remove: "reachable b \<Longrightarrow> removeBan attr val b = Inr b' \<Longrightarrow> reachable b'"
| reach_clear: "reachable b \<Longrightarrow> reachable (clearBans b)"

section \<open>Filtering and picking (lines 62--87)\<close>

text \<open>
  \<^verbatim>\<open>bans.Artist.has(a)\<close>: a \<open>TypeError\<close> when the property is absent.
\<close>

definition has :: "bans \<Rightarrow> string \<Rightarrow> string \<Rightarrow> exn + bool" where
  "has b attr v = (case b attr of Some s \<Rightarrow> Inr (v \<in> s) | None \<Rightarrow> Inl TypeError)"

text \<open>
  The callback of \<open>artworks.filter\<close>:
  \<^verbatim>\<open>
  (r) => {
    const a = artistOf(r);
    const cu = safe(r?.culture);
    const ce = safe(r?.century);
    if (bans.Artist.has(a)) return false;
    if (bans.Culture.has(cu)) return false;
    if (bans.Century.has(ce)) return false;
    return true;
  }\<close>
\<close>

definition keep :: "bans \<Rightarrow> rawrecord \<Rightarrow> exn + bool" where
  "keep b r =
     (let a = artistOf r; cu = safe (culture r); ce = safe (century r) in
      case has b ''Artist'' a of
        Inl e \<Rightarrow> Inl e
      | Inr True \<Rightarrow> Inr False
      | Inr False \<Rightarrow>
          (case has b ''Culture'' cu of
             Inl e \<Rightarrow> Inl e
           | Inr True \<Rightarrow> Inr False
           | Inr False \<Rightarrow>
               (case has b ''Century'' ce of
                  Inl e \<Rightarrow> Inl e
                | Inr True \<Rightarrow> Inr False
                | Inr False \<Rightarrow> Inr True)))"

text \<open>\<open>Array.prototype.filter\<close> with a callback that may throw.\<close>

fun filterE :: "('a \<Rightarrow> exn + bool) \<Rightarrow> 'a list \<Rightarrow> exn + 'a list" where
  "filterE p [] = Inr []"
| "filterE p (x # xs) =
     (case p x of
        Inl e \<Rightarrow> Inl e
      | Inr k \<Rightarrow>
          (case filterE p xs of
             Inl e \<Rightarrow> Inl e
           | Inr ys \<Rightarrow> Inr (if k then x # ys else ys)))"

definition eligible :: "bans \<Rightarrow> rawrecord list \<Rightarrow> exn + rawrecord list" where
  "eligible b artworks = filterE (keep b) artworks"

subsection \<open>Double-precision arithmetic of line 77\<close>

text \<open>
  A JavaScript number is an IEEE 754 binary64 value. A finite one is written here as the
  real number it denotes; every such value is a whole multiple of \<open>2 ^ -1074\<close> whose
  significand has at most 53 bits.

  Rounding to the nearest integer, a tie going to the even one.
\<close>

definition roundHalfEven :: "real \<Rightarrow> int" where
  "roundHalfEven y =
     (let f = \<lfloor>y\<rfloor>; d = y - of_int f in
      if d < 1 / 2 then f
      else if 1 / 2 < d then f + 1
      else if even f then f else f + 1)"

text \<open>
  The spacing of the doubles around \<open>x\<close>, in units of \<open>2 ^ -1074\<close>: with \<open>l\<close> the bit
  length of \<open>\<lfloor>\<bar>x\<bar> * 2 ^ 1074\<rfloor>\<close> it is \<open>2 ^ (l - 53)\<close>, and \<open>1\<close> for the subnormal
  numbers and the first binade of the normal ones (where \<open>l \<le> 53\<close>; the subtraction on
  natural numbers stops at \<open>0\<close>).
\<close>

definition quantum :: "real \<Rightarrow> nat" where
  "quantum x = 2 ^ (floorlog 2 (nat \<lfloor>\<bar>x\<bar> * 2 ^ 1074\<rfloor>) - 53)"

text \<open>
  The double nearest to the real number \<open>x\<close>, a tie going to the even significand: the
  rounding of every arithmetic operation. Overflow to \<open>Infinity\<close> is left out: the
  product of line 77 is below the length of an array, which is below \<open>2 ^ 32\<close>.
\<close>

definition roundDouble :: "real \<Rightarrow> real" where
  "roundDouble x =
     real_of_int (roundHalfEven (x * 2 ^ 1074 / real (quantum x))) * real (quantum x)
       / 2 ^ 1074"

definition isDouble :: "real \<Rightarrow> bool" where
  "isDouble x = (roundDouble x = x \<and> \<bar>x\<bar> < 2 ^ 1024)"

text \<open>
  \<^verbatim>\<open>Math.floor(Math.random() * eligible.length)\<close>, with the double that
  \<open>Math.random()\<close> returns as the argument \<open>rnd\<close>. The length of an array is a double
  exactly; the product is rounded to a double before \<open>Math.floor\<close>.
\<close>

definition pickIndex :: "real \<Rightarrow> nat \<Rightarrow> int" where
  "pickIndex rnd n = \<lfloor>roundDouble (rnd * real n)\<rfloor>"

text \<open>The object passed to \<open>setInputs\<close> (lines 79--87).\<close>

record artwork =
  Title :: string
  Artist :: string
  Culture :: string
  Century :: string
  Date :: string
  Medium :: string
  Image_url :: string

definition normalized :: "rawrecord \<Rightarrow> artwork" where
  "normalized pick =
     \<lparr> Title = orDefault (title pick) ''N/A'',
       Artist = artistOf pick,
       Culture = safe (culture pick),
       Century = safe (century pick),
       Date = orDefault (dated pick) ''N/A'',
       Medium = orDefault (medium pick) ''N/A'',
       Image_url = orDefault (primaryimageurl pick) [] \<rparr>"

text \<open>
  The selection of lines 62--87 as one function of the ban list, the batch and the
  double that \<open>Math.random()\<close> returns. \<open>EmptyResult\<close> is the early return of lines
  72--75; \<open>Inl\<close> is a thrown exception. Reading \<open>pick.title\<close> of an \<open>undefined\<close> pick
  (an index out of range) throws.
\<close>

datatype selection = EmptyResult | Picked artwork

definition select :: "bans \<Rightarrow> rawrecord list \<Rightarrow> real \<Rightarrow> exn + selection" where
  "select b artworks rnd =
     (case eligible b artworks of
        Inl e \<Rightarrow> Inl e
      | Inr el \<Rightarrow>
          if length el = 0 then Inr EmptyResult
          else let i = pickIndex rnd (length el) in
               if 0 \<le> i \<and> i < int (length el) then Inr (Picked (normalized (el ! nat i)))
               else Inl TypeError)"

section \<open>The discover cycle (lines 49--94)\<close>

text \<open>
  The two messages of \<open>setError\<close>: \<open>NothingFound\<close> is
  "Nothing found that avoids your ban list. Try clearing some bans." and \<open>CouldntFetch\<close>
  is the message of the \<open>catch\<close> block; \<open>NoMessage\<close> is \<open>""\<close>.
\<close>

datatype message = NoMessage | NothingFound | CouldntFetch

datatype effect = Alert | ConsoleError

record app =
  inputs :: artwork
  bans :: bans
  loading :: bool
  error :: message
  effects :: "effect list"

text \<open>
  The outcome of \<open>await axios.get(url)\<close>: the promise rejects, or it resolves and
  \<open>response?.data?.records\<close> is absent, \<open>null\<close> or an array.
\<close>

datatype http = Rejected | Resolved "rawrecord list js"

text \<open>\<^verbatim>\<open>response?.data?.records || []\<close> (line 60); an array is truthy.\<close>

definition artworksOf :: "rawrecord list js \<Rightarrow> rawrecord list" where
  "artworksOf recs = (case recs of Val rs \<Rightarrow> rs | _ \<Rightarrow> [])"

text \<open>The body of the \<open>try\<close> block (lines 58--87).\<close>

definition tryBlock :: "http \<Rightarrow> real \<Rightarrow> app \<Rightarrow> exn + app" where
  "tryBlock h rnd st =
     (case h of
        Rejected \<Rightarrow> Inl RequestFailed
      | Resolved recs \<Rightarrow>
          (let artworks = artworksOf recs in
           (case select (bans st) artworks rnd of
              Inl e \<Rightarrow> Inl e
            | Inr EmptyResult \<Rightarrow> Inr (st\<lparr>error := NothingFound\<rparr>)
            | Inr (Picked a) \<Rightarrow> Inr (st\<lparr>inputs := a\<rparr>))))"

definition fetchArtwork :: "string js \<Rightarrow> http \<Rightarrow> real \<Rightarrow> app \<Rightarrow> app" where
  "fetchArtwork apiKey h rnd st =
     (if \<not> truthy apiKey then st\<lparr>effects := effects st @ [Alert]\<rparr>
      else
        let st1 = st\<lparr>loading := True, error := NoMessage\<rparr>;
            st2 = (case tryBlock h rnd st1 of
                     Inr s \<Rightarrow> s
                   | Inl e \<Rightarrow> st1\<lparr>error := CouldntFetch,
                                   effects := effects st1 @ [ConsoleError]\<rparr>)
        in st2\<lparr>loading := False\<rparr>)"

text \<open>The state of the first render (lines 10--29).\<close>

definition initialApp :: app where
  "initialApp =
     \<lparr> inputs = \<lparr> Title = [], Artist = [], Culture = [], Century = [], Date = [],
                  Medium = [], Image_url = [] \<rparr>,
       bans = initialBans, loading = False, error = NoMessage, effects = [] \<rparr>"

section \<open>Vocabulary of the specification\<close>

text \<open>
  A ban list in the sense of the specification holds a set under each of the three
  tracked attribute names.
\<close>

definition isBanSet :: "bans \<Rightarrow> bool" where
  "isBanSet b = (b ''Artist'' \<noteq> None \<and> b ''Culture'' \<noteq> None \<and> b ''Century'' \<noteq> None)"

text \<open>No set of the ban list holds the sentinel or the empty string.\<close>

definition sentinelFree :: "bans \<Rightarrow> bool" where
  "sentinelFree b = (\<forall>attr S. b attr = Some S \<longrightarrow> ''N/A'' \<notin> S \<and> [] \<notin> S)"

text \<open>A source field is blank when it is missing, empty, or made of white space only.\<close>

fun blank :: "string js \<Rightarrow> bool" where
  "blank (Val s) = list_all isWhiteSpace s"
| "blank _ = True"

section \<open>Example records\<close>

text \<open>The record of the specification's scenarios.\<close>

definition vase :: rawrecord where
  "vase =
     \<lparr> title = Val ''Vase'', people = Val [\<lparr> name = Val ''Unknown'' \<rparr>],
       culture = Val ''Greek'', century = Val ''5th century B.C.'',
       dated = Val ''450 BC'', medium = Val ''Clay'',
       primaryimageurl = Val ''http://x/1.jpg'' \<rparr>"

text \<open>A record with no contributors and no century.\<close>

definition coin :: rawrecord where
  "coin =
     \<lparr> title = Val ''Coin'', people = Undefined,
       culture = Val ''Roman'', century = Null,
       dated = Val ''100 AD'', medium = Val ''Bronze'',
       primaryimageurl = Val ''http://x/2.jpg'' \<rparr>"

text \<open>A record with every field absent, \<open>null\<close> or empty.\<close>

definition bare :: rawrecord where
  "bare =
     \<lparr> title = Undefined, people = Val [],
       culture = Null, century = Val [],
       dated = Null, medium = Val [],
       primaryimageurl = Undefined \<rparr>"

text \<open>A record whose fields are all a single space.\<close>

definition spaces :: rawrecord where
  "spaces =
     \<lparr> title = Val '' '', people = Val [\<lparr> name = Val '' '' \<rparr>],
       culture = Val '' '', century = Val '' '',
       dated = Val '' '', medium = Val '' '',
       primaryimageurl = Val '' '' \<rparr>"

text \<open>
  A double below \<open>5 / 6\<close> whose product with \<open>6\<close> is \<open>5 - 2 ^ -51\<close>, half way between
  two doubles, and a batch of six records.
\<close>

definition tie :: real where
  "tie = 3752999689475413 / 2 ^ 52"

definition six :: "rawrecord list" where
  "six = [vase, vase, vase, vase, coin, bare]"

text \<open>
  A session showing the vase, with the culture "Greek" banned and the message of an
  earlier failure still on screen.
\<close>

definition viewing :: app where
  "viewing =
     \<lparr> inputs = normalized vase, bans = initialBans(''Culture'' \<mapsto> {''Greek''}),
       loading = False, error = NothingFound, effects = [] \<rparr>"

section \<open>Rounding to a double\<close>

lemma roundHalfEven_upper: "real_of_int (roundHalfEven y) \<le> y + 1 / 2"
  unfolding roundHalfEven_def Let_def by (auto; linarith)

lemma roundHalfEven_lower: "y - 1 / 2 \<le> real_of_int (roundHalfEven y)"
  unfolding roundHalfEven_def Let_def by (auto; linarith)

lemma roundHalfEven_ge_int:
  assumes "real_of_int k \<le> y"
  shows "k \<le> roundHalfEven y"
proof -
  have "real_of_int k - 1 / 2 \<le> real_of_int (roundHalfEven y)"
    using roundHalfEven_lower [of y] assms by linarith
  then have "real_of_int k < real_of_int (roundHalfEven y) + 1" by linarith
  then have "k < roundHalfEven y + 1" by linarith
  then show ?thesis by simp
qed

lemma roundHalfEven_le_int:
  assumes "y \<le> real_of_int k"
  shows "roundHalfEven y \<le> k"
proof -
  have "real_of_int (roundHalfEven y) \<le> real_of_int k + 1 / 2"
    using roundHalfEven_upper [of y] assms by linarith
  then have "real_of_int (roundHalfEven y) < real_of_int k + 1" by linarith
  then have "roundHalfEven y < k + 1" by linarith
  then show ?thesis by simp
qed

lemma roundHalfEven_of_int: "roundHalfEven (real_of_int k) = k"
  by (simp add: roundHalfEven_def)

lemma quantum_pos: "0 < quantum x"
  by (simp add: quantum_def)

lemma quantum_eq:
  assumes "0 \<le> x"
  shows "quantum x = 2 ^ (floorlog 2 (nat \<lfloor>x * 2 ^ 1074\<rfloor>) - 53)"
  unfolding quantum_def using assms by (simp only: abs_of_nonneg)

lemma scaled_floor_le:
  assumes "0 \<le> (X::real)"
  shows "real (nat \<lfloor>X\<rfloor>) \<le> X"
proof -
  from assms have "0 \<le> \<lfloor>X\<rfloor>" by simp
  then have "real (nat \<lfloor>X\<rfloor>) = real_of_int \<lfloor>X\<rfloor>" by simp
  then show ?thesis by simp
qed

lemma quantum_shape:
  assumes "0 \<le> x"
  shows "quantum x = 1 \<or> real (quantum x) * 2 ^ 52 \<le> x * 2 ^ 1074"
proof -
  define X where "X = x * 2 ^ 1074"
  define N where "N = nat \<lfloor>X\<rfloor>"
  define L where "L = floorlog 2 N"
  have q: "quantum x = 2 ^ (L - 53)"
    unfolding L_def N_def X_def by (rule quantum_eq [OF assms])
  have "(0::real) \<le> 2 ^ 1074" by (rule zero_le_power) simp
  with assms have X0: "0 \<le> X" unfolding X_def by (rule mult_nonneg_nonneg)
  show ?thesis
  proof (cases "L \<le> 53")
    case True
    with q show ?thesis by simp
  next
    case False
    then have L: "53 < L" by simp
    have "N \<noteq> 0"
    proof
      assume "N = 0"
      then have "L = 0" unfolding L_def by (simp add: floorlog_def)
      with L show False by simp
    qed
    then have "2 ^ (L - 1) \<le> N"
      unfolding L_def using floorlog_bounds [of N 2] by simp
    then have "real (2 ^ (L - 1)) \<le> real N" by (rule of_nat_mono)
    also have "real N \<le> X" unfolding N_def by (rule scaled_floor_le [OF X0])
    finally have b: "(2::real) ^ (L - 1) \<le> X" by simp
    from L have "L - 53 + 52 = L - 1" by arith
    then have "(2::real) ^ (L - 53) * 2 ^ 52 = 2 ^ (L - 1)"
      by (simp only: power_add [symmetric])
    with b q have "real (quantum x) * 2 ^ 52 \<le> X" by simp
    then show ?thesis unfolding X_def by simp
  qed
qed

lemma quantum_exponent:
  assumes "0 \<le> x" and "x < 2 ^ k"
  shows "\<exists>j. j + 53 \<le> k + 1074 \<and> quantum x = 2 ^ j"
proof -
  define X where "X = x * 2 ^ 1074"
  define N where "N = nat \<lfloor>X\<rfloor>"
  define L where "L = floorlog 2 N"
  have q: "quantum x = 2 ^ (L - 53)"
    unfolding L_def N_def X_def by (rule quantum_eq [OF assms(1)])
  have p: "(0::real) < 2 ^ 1074" by (rule zero_less_power) simp
  then have X0: "0 \<le> X" unfolding X_def using assms(1) by simp
  have "X < 2 ^ k * 2 ^ 1074"
    unfolding X_def using assms(2) p by (rule mult_strict_right_mono)
  then have "X < 2 ^ (k + 1074)" by (simp only: power_add)
  with scaled_floor_le [OF X0] have "real N < 2 ^ (k + 1074)"
    unfolding N_def by linarith
  then have "real N < real (2 ^ (k + 1074))" by simp
  then have "N < 2 ^ (k + 1074)" by (simp only: of_nat_less_iff)
  then have "L \<le> k + 1074" unfolding L_def by (intro floorlog_leI) simp_all
  then have "(L - 53) + 53 \<le> k + 1074" by arith
  with q show ?thesis by blast
qed

lemma roundDouble_scaled:
  "roundDouble x * 2 ^ 1074 =
     real_of_int (roundHalfEven (x * 2 ^ 1074 / real (quantum x))) * real (quantum x)"
proof -
  have c: "\<And>a S::real. S \<noteq> 0 \<Longrightarrow> a / S * S = a" by simp
  have "(2::real) ^ 1074 \<noteq> 0" by (rule power_not_zero) simp
  then show ?thesis unfolding roundDouble_def by (rule c)
qed

lemma roundDouble_upper:
  assumes "0 \<le> x"
  shows "roundDouble x * 2 ^ 1074 \<le> x * 2 ^ 1074 + 1 / 2
       \<or> roundDouble x * 2 ^ 53 \<le> x * (2 ^ 53 + 1)"
proof -
  define S :: real where "S = 2 ^ 1074"
  define Q where "Q = real (quantum x)"
  define R where "R = real_of_int (roundHalfEven (x * S / Q))"
  define F where "F = roundDouble x"
  have S: "0 < S" unfolding S_def by (rule zero_less_power) simp
  have Q: "0 < Q" unfolding Q_def using quantum_pos [of x] by simp
  have FS: "F * S = R * Q"
    unfolding F_def S_def R_def Q_def by (rule roundDouble_scaled)
  have "R \<le> x * S / Q + 1 / 2" unfolding R_def by (rule roundHalfEven_upper)
  then have "R * Q \<le> (x * S / Q + 1 / 2) * Q" using Q by (simp only: mult_le_cancel_right_pos)
  also have "\<dots> = x * S + Q / 2" using Q by (simp add: field_simps)
  finally have b: "F * S \<le> x * S + Q / 2" using FS by simp
  from quantum_shape [OF assms] have "Q = 1 \<or> Q * 2 ^ 52 \<le> x * S"
    unfolding Q_def S_def by simp
  then show ?thesis
  proof
    assume "Q = 1"
    with b have "F * S \<le> x * S + 1 / 2" by simp
    then show ?thesis unfolding F_def S_def by blast
  next
    assume a: "Q * 2 ^ 52 \<le> x * S"
    define c :: real where "c = 2 ^ 53"
    have c: "0 \<le> c" unfolding c_def by simp
    have "Q / 2 * c = Q * 2 ^ 52" unfolding c_def by simp
    with a have h: "Q / 2 * c \<le> x * S" by (simp only:)
    from b c have "F * S * c \<le> (x * S + Q / 2) * c" by (rule mult_right_mono)
    also have "\<dots> = x * S * c + Q / 2 * c" by (simp add: algebra_simps)
    also have "\<dots> \<le> x * S * c + x * S" using h by linarith
    finally have "(F * c) * S \<le> (x * (c + 1)) * S" by (simp add: algebra_simps)
    then have "F * c \<le> x * (c + 1)" using S by (simp only: mult_le_cancel_right_pos)
    then show ?thesis unfolding F_def c_def by blast
  qed
qed

lemma roundDouble_lower:
  assumes "0 \<le> x"
  shows "x * 2 ^ 1074 - 1 / 2 \<le> roundDouble x * 2 ^ 1074
       \<or> x * (2 ^ 53 - 1) \<le> roundDouble x * 2 ^ 53"
proof -
  define S :: real where "S = 2 ^ 1074"
  define Q where "Q = real (quantum x)"
  define R where "R = real_of_int (roundHalfEven (x * S / Q))"
  define F where "F = roundDouble x"
  have S: "0 < S" unfolding S_def by (rule zero_less_power) simp
  have Q: "0 < Q" unfolding Q_def using quantum_pos [of x] by simp
  have FS: "F * S = R * Q"
    unfolding F_def S_def R_def Q_def by (rule roundDouble_scaled)
  have "x * S / Q - 1 / 2 \<le> R" unfolding R_def by (rule roundHalfEven_lower)
  then have "(x * S / Q - 1 / 2) * Q \<le> R * Q" using Q by (simp only: mult_le_cancel_right_pos)
  moreover have "(x * S / Q - 1 / 2) * Q = x * S - Q / 2" using Q by (simp add: field_simps)
  ultimately have b: "x * S - Q / 2 \<le> F * S" using FS by simp
  from quantum_shape [OF assms] have "Q = 1 \<or> Q * 2 ^ 52 \<le> x * S"
    unfolding Q_def S_def by simp
  then show ?thesis
  proof
    assume "Q = 1"
    with b have "x * S - 1 / 2 \<le> F * S" by simp
    then show ?thesis unfolding F_def S_def by blast
  next
    assume a: "Q * 2 ^ 52 \<le> x * S"
    define c :: real where "c = 2 ^ 53"
    have c: "0 \<le> c" unfolding c_def by simp
    have "Q / 2 * c = Q * 2 ^ 52" unfolding c_def by simp
    with a have h: "Q / 2 * c \<le> x * S" by (simp only:)
    have "x * S * c - x * S \<le> x * S * c - Q / 2 * c" using h by linarith
    also have "\<dots> = (x * S - Q / 2) * c" by (simp add: algebra_simps)
    also from b c have "\<dots> \<le> F * S * c" by (rule mult_right_mono)
    finally have "(x * (c - 1)) * S \<le> (F * c) * S" by (simp add: algebra_simps)
    then have "x * (c - 1) \<le> F * c" using S by (simp only: mult_le_cancel_right_pos)
    then show ?thesis unfolding F_def c_def by blast
  qed
qed

lemma roundDouble_nonneg:
  assumes "0 \<le> x"
  shows "0 \<le> roundDouble x"
proof -
  have "(0::real) \<le> 2 ^ 1074" by (rule zero_le_power) simp
  with assms have "0 \<le> x * 2 ^ 1074" by (rule mult_nonneg_nonneg)
  then have "real_of_int 0 \<le> x * 2 ^ 1074 / real (quantum x)"
    by (simp only: of_int_0 zero_le_divide_iff) simp
  then have "0 \<le> roundHalfEven (x * 2 ^ 1074 / real (quantum x))"
    by (rule roundHalfEven_ge_int)
  then show ?thesis
    unfolding roundDouble_def by (intro divide_nonneg_nonneg mult_nonneg_nonneg) simp_all
qed

lemma roundDouble_int_bounds:
  assumes "0 \<le> x" and "x < 2 ^ 53"
  shows "real_of_int k \<le> x \<Longrightarrow> real_of_int k \<le> roundDouble x"
    and "x \<le> real_of_int k \<Longrightarrow> roundDouble x \<le> real_of_int k"
proof -
  define S :: real where "S = 2 ^ 1074"
  define F where "F = roundDouble x"
  have S: "0 < S" unfolding S_def by (rule zero_less_power) simp
  from quantum_exponent [OF assms] obtain j where j: "j \<le> 1074" and q: "quantum x = 2 ^ j"
    by auto
  define m :: int where "m = 2 ^ (1074 - j)"
  define Q :: real where "Q = 2 ^ j"
  have Q: "0 < Q" unfolding Q_def by simp
  from j have "j + (1074 - j) = 1074" by simp
  then have "(2::real) ^ j * 2 ^ (1074 - j) = 2 ^ 1074" by (simp only: power_add [symmetric])
  then have SQ: "S = Q * real_of_int m" unfolding S_def Q_def m_def by simp
  then have d: "x * S / Q = x * real_of_int m" using Q by simp
  have m: "0 \<le> real_of_int m" unfolding m_def by simp
  have FS: "F * S = real_of_int (roundHalfEven (x * S / Q)) * Q"
    unfolding F_def S_def Q_def using roundDouble_scaled [of x] q by simp
  {
    assume "real_of_int k \<le> x"
    then have "real_of_int k * real_of_int m \<le> x * real_of_int m"
      using m by (rule mult_right_mono)
    then have "real_of_int (k * m) \<le> x * S / Q" using d by simp
    then have "k * m \<le> roundHalfEven (x * S / Q)" by (rule roundHalfEven_ge_int)
    then have "real_of_int (k * m) \<le> real_of_int (roundHalfEven (x * S / Q))"
      by (simp only: of_int_le_iff)
    then have "real_of_int (k * m) * Q \<le> F * S"
      using Q FS by (simp only: mult_le_cancel_right_pos)
    then have "real_of_int k * S \<le> F * S" using SQ by (simp add: mult.commute mult.left_commute)
    then have "real_of_int k \<le> F" using S by (simp only: mult_le_cancel_right_pos)
    then show "real_of_int k \<le> roundDouble x" unfolding F_def .
  }
  {
    assume "x \<le> real_of_int k"
    then have "x * real_of_int m \<le> real_of_int k * real_of_int m"
      using m by (rule mult_right_mono)
    then have "x * S / Q \<le> real_of_int (k * m)" using d by simp
    then have "roundHalfEven (x * S / Q) \<le> k * m" by (rule roundHalfEven_le_int)
    then have "real_of_int (roundHalfEven (x * S / Q)) \<le> real_of_int (k * m)"
      by (simp only: of_int_le_iff)
    then have "F * S \<le> real_of_int (k * m) * Q"
      using Q FS by (simp only: mult_le_cancel_right_pos)
    then have "F * S \<le> real_of_int k * S" using SQ by (simp add: mult.commute mult.left_commute)
    then have "F \<le> real_of_int k" using S by (simp only: mult_le_cancel_right_pos)
    then show "roundDouble x \<le> real_of_int k" unfolding F_def .
  }
qed

lemma roundDouble_below:
  assumes "0 \<le> x" and "1 \<le> m" and "x * 2 ^ 53 \<le> m * (2 ^ 53 - 1)"
  shows "roundDouble x < m"
proof -
  define S :: real where "S = 2 ^ 1074"
  define T :: real where "T = 2 ^ 1021"
  define c :: real where "c = 2 ^ 53"
  define F where "F = roundDouble x"
  have S: "0 < S" unfolding S_def by (rule zero_less_power) simp
  have T: "1 \<le> T" unfolding T_def by (rule one_le_power) simp
  have c: "1 < c" unfolding c_def by simp
  have "(2::real) ^ 53 * 2 ^ 1021 = 2 ^ (53 + 1021)" by (rule power_add [symmetric])
  then have ST: "S = c * T" unfolding S_def c_def T_def by simp
  have h: "x * c \<le> m * (c - 1)" using assms(3) unfolding c_def .
  from roundDouble_upper [OF assms(1)]
  have "F * S \<le> x * S + 1 / 2 \<or> F * c \<le> x * (c + 1)"
    unfolding F_def S_def c_def .
  then have "F * S < m * S"
  proof
    assume a: "F * S \<le> x * S + 1 / 2"
    from h T have "x * c * T \<le> m * (c - 1) * T" by (intro mult_right_mono) simp_all
    then have "x * S \<le> m * S - m * T" unfolding ST by (simp add: algebra_simps)
    moreover from assms(2) T have "1 * 1 \<le> m * T" by (intro mult_mono) simp_all
    ultimately show ?thesis using a by linarith
  next
    assume a: "F * c \<le> x * (c + 1)"
    from a c have "F * c * c \<le> x * (c + 1) * c" by (intro mult_right_mono) simp_all
    also have "\<dots> = x * c * (c + 1)" by (simp add: algebra_simps)
    also from h c have "\<dots> \<le> m * (c - 1) * (c + 1)" by (intro mult_right_mono) simp_all
    also have "\<dots> = m * (c * c) - m" by (simp add: algebra_simps)
    also from assms(2) have "\<dots> < m * (c * c)" by simp
    finally have "F * (c * c) < m * (c * c)" by (simp add: algebra_simps)
    moreover from c have "0 < c * c" by simp
    ultimately have "F < m" by (simp only: mult_less_cancel_right_pos)
    with S show ?thesis by (simp only: mult_less_cancel_right_pos)
  qed
  with S have "F < m" by (simp only: mult_less_cancel_right_pos)
  then show ?thesis unfolding F_def .
qed

lemma roundDouble_above:
  assumes "0 \<le> x" and "real i \<le> roundDouble x"
  shows "real i * (2 ^ 53 - 1) \<le> x * 2 ^ 53"
proof -
  define S :: real where "S = 2 ^ 1074"
  define T :: real where "T = 2 ^ 1021"
  define c :: real where "c = 2 ^ 53"
  define F where "F = roundDouble x"
  have S: "0 < S" unfolding S_def by (rule zero_less_power) simp
  have T: "1 \<le> T" unfolding T_def by (rule one_le_power) simp
  have c: "1 < c" unfolding c_def by simp
  have "(2::real) ^ 53 * 2 ^ 1021 = 2 ^ (53 + 1021)" by (rule power_add [symmetric])
  then have ST: "S = c * T" unfolding S_def c_def T_def by simp
  have iF: "real i \<le> F" using assms(2) unfolding F_def .
  from roundDouble_upper [OF assms(1)]
  have "F * S \<le> x * S + 1 / 2 \<or> F * c \<le> x * (c + 1)"
    unfolding F_def S_def c_def .
  then have "real i * (c - 1) \<le> x * c"
  proof
    assume a: "F * S \<le> x * S + 1 / 2"
    show ?thesis
    proof (cases "i = 0")
      case True
      with assms(1) c show ?thesis by simp
    next
      case False
      then have "1 \<le> real i" by simp
      with T have "1 * 1 \<le> real i * T" by (intro mult_mono) simp_all
      moreover from iF S have "real i * S \<le> F * S" by (simp only: mult_le_cancel_right_pos)
      ultimately have "real i * S - real i * T \<le> x * S" using a by linarith
      then have "(real i * (c - 1)) * T \<le> (x * c) * T" unfolding ST by (simp add: algebra_simps)
      moreover from T have "0 < T" by simp
      ultimately show ?thesis by (simp only: mult_le_cancel_right_pos)
    qed
  next
    assume a: "F * c \<le> x * (c + 1)"
    from c have c1: "0 < c + 1" by simp
    have "real i * (c - 1) * (c + 1) = real i * (c * c) - real i" by (simp add: algebra_simps)
    also have "\<dots> \<le> real i * c * c" by simp
    also from iF c have "\<dots> \<le> F * c * c" by (intro mult_right_mono) simp_all
    also from a c have "\<dots> \<le> x * (c + 1) * c" by (intro mult_right_mono) simp_all
    also have "\<dots> = x * c * (c + 1)" by (simp add: algebra_simps)
    finally show ?thesis using c1 by (simp only: mult_le_cancel_right_pos)
  qed
  then show ?thesis unfolding c_def .
qed

lemma double_below_one:
  assumes "isDouble r" and "0 \<le> r" and "r < 1"
  shows "r * 2 ^ 53 \<le> 2 ^ 53 - 1"
proof -
  define S :: real where "S = 2 ^ 1074"
  define X where "X = r * S"
  define N where "N = nat \<lfloor>X\<rfloor>"
  define L where "L = floorlog 2 N"
  have S: "0 < S" unfolding S_def by (rule zero_less_power) simp
  have X0: "0 \<le> X" unfolding X_def using assms(2) S by simp
  have q: "quantum r = 2 ^ (L - 53)"
    unfolding L_def N_def X_def S_def by (rule quantum_eq [OF assms(2)])
  have "X < 1 * S" unfolding X_def using assms(3) S by (rule mult_strict_right_mono)
  with scaled_floor_le [OF X0] have "real N < S" unfolding N_def by simp
  then have "real N < real (2 ^ 1074)" unfolding S_def by simp
  then have "N < 2 ^ 1074" by (simp only: of_nat_less_iff)
  then have L: "L \<le> 1074" unfolding L_def by (intro floorlog_leI) simp_all
  show ?thesis
  proof (cases "L = 1074")
    case True
    define Q :: real where "Q = 2 ^ 1021"
    define R where "R = roundHalfEven (r * S / Q)"
    have Q: "0 < Q" unfolding Q_def by (rule zero_less_power) simp
    have "(2::real) ^ 53 * 2 ^ 1021 = 2 ^ (53 + 1021)" by (rule power_add [symmetric])
    then have SQ: "S = 2 ^ 53 * Q" unfolding S_def Q_def by simp
    from q True have "real (quantum r) = Q" unfolding Q_def by simp
    with roundDouble_scaled [of r] have "roundDouble r * S = real_of_int R * Q"
      unfolding R_def S_def by simp
    with assms(1) have e: "r * S = real_of_int R * Q" by (simp add: isDouble_def)
    have "X < S" using \<open>X < 1 * S\<close> by (simp only: mult_1)
    with e have "real_of_int R * Q < S" unfolding X_def by (simp only:)
    then have "real_of_int R * Q < 2 ^ 53 * Q" using SQ by (simp only:)
    with Q have "real_of_int R < 2 ^ 53" by (simp only: mult_less_cancel_right_pos)
    then have "R < 2 ^ 53" by simp
    then have "R \<le> 2 ^ 53 - 1" by simp
    then have "real_of_int R \<le> real_of_int (2 ^ 53 - 1)" by (simp only: of_int_le_iff)
    then have "real_of_int R \<le> 2 ^ 53 - 1" by simp
    with Q have "real_of_int R * Q \<le> (2 ^ 53 - 1) * Q" by (simp only: mult_le_cancel_right_pos)
    moreover have "(r * 2 ^ 53) * Q = r * S" unfolding SQ by (simp only: mult.assoc)
    ultimately have "(r * 2 ^ 53) * Q \<le> (2 ^ 53 - 1) * Q" using e by (simp only:)
    with Q show ?thesis by (simp only: mult_le_cancel_right_pos)
  next
    case False
    with L have "L \<le> 1073" by simp
    then have "N < 2 ^ 1073" unfolding L_def by (rule floorlog_leD) simp
    then have "int N < 2 ^ 1073" by (simp only: of_nat_less_iff [symmetric, where ?'a = int]) simp
    moreover from X0 have "int N = \<lfloor>X\<rfloor>" unfolding N_def by simp
    ultimately have "\<lfloor>X\<rfloor> < 2 ^ 1073" by simp
    then have "X < real_of_int (2 ^ 1073)" by (simp only: floor_less_iff)
    then have x: "r * S < 2 ^ 1073" unfolding X_def by simp
    define H :: real where "H = 2 ^ 1073"
    have H: "0 < H" unfolding H_def by (rule zero_less_power) simp
    have "(2::real) ^ 1 * 2 ^ 1073 = 2 ^ (1 + 1073)" by (rule power_add [symmetric])
    then have "S = 2 * H" unfolding S_def H_def by simp
    with x have "(r * 2) * H < 1 * H" unfolding H_def by (simp add: mult.assoc)
    with H have "r * 2 < 1" by (simp only: mult_less_cancel_right_pos)
    then show ?thesis by simp
  qed
qed

lemma pickIndex_range:
  assumes "isDouble rnd" and "0 \<le> rnd" and "rnd < 1" and "0 < n"
  shows "0 \<le> pickIndex rnd n" and "pickIndex rnd n < int n"
proof -
  have x: "0 \<le> rnd * real n" using assms(2) by simp
  from roundDouble_nonneg [OF x] show "0 \<le> pickIndex rnd n"
    unfolding pickIndex_def by simp
  from double_below_one [OF assms(1-3)]
  have "rnd * 2 ^ 53 * real n \<le> (2 ^ 53 - 1) * real n"
    by (intro mult_right_mono) simp_all
  then have "rnd * real n * 2 ^ 53 \<le> real n * (2 ^ 53 - 1)" by (simp add: algebra_simps)
  moreover from assms(4) have "1 \<le> real n" by simp
  ultimately have "roundDouble (rnd * real n) < real n"
    by (intro roundDouble_below [OF x])
  then have "\<lfloor>roundDouble (rnd * real n)\<rfloor> < int n" by (simp add: floor_less_iff)
  then show "pickIndex rnd n < int n" unfolding pickIndex_def .
qed

lemma pickIndex_interval:
  assumes "0 \<le> rnd" and "rnd < 1" and "0 < n" and "n \<le> 2 ^ 53"
  shows "pickIndex rnd n = int i \<Longrightarrow>
           real i * (1 - 1 / 2 ^ 53) / real n \<le> rnd \<and> rnd < real (i + 1) / real n"
    and "real i / real n \<le> rnd \<Longrightarrow> rnd < real (i + 1) * (1 - 1 / 2 ^ 53) / real n \<Longrightarrow>
           pickIndex rnd n = int i"
proof -
  define x where "x = rnd * real n"
  define c :: real where "c = 2 ^ 53"
  have c: "0 < c" unfolding c_def by simp
  have n: "0 < real n" using assms(3) by simp
  have x0: "0 \<le> x" unfolding x_def using assms(1) by simp
  have "rnd * real n < 1 * real n" using assms(2) n by (rule mult_strict_right_mono)
  moreover from assms(4) have "real n \<le> real (2 ^ 53)" by (rule of_nat_mono)
  ultimately have x53: "x < 2 ^ 53" unfolding x_def by simp
  have sc: "\<And>a. a * (1 - 1 / c) = a * (c - 1) / c" using c by (simp add: field_simps)
  {
    assume p: "pickIndex rnd n = int i"
    then have f: "\<lfloor>roundDouble x\<rfloor> = int i" unfolding pickIndex_def x_def .
    then have "real_of_int (int i) \<le> roundDouble x" by (simp only: floor_eq_iff)
    then have "real i \<le> roundDouble x" by simp
    from roundDouble_above [OF x0 this] have "real i * (c - 1) \<le> x * c" unfolding c_def .
    then have "real i * (c - 1) / c \<le> x" using c by (simp add: pos_divide_le_eq)
    then have "real i * (1 - 1 / c) \<le> rnd * real n" unfolding sc x_def .
    then have lo: "real i * (1 - 1 / c) / real n \<le> rnd" using n by (simp add: pos_divide_le_eq)
    have "x < real (i + 1)"
    proof (rule ccontr)
      assume "\<not> x < real (i + 1)"
      then have "real_of_int (int (i + 1)) \<le> x" by simp
      from roundDouble_int_bounds(1) [OF x0 x53 this]
      have "int (i + 1) \<le> \<lfloor>roundDouble x\<rfloor>" by (simp only: le_floor_iff)
      with f show False by simp
    qed
    then have "rnd < real (i + 1) / real n" unfolding x_def using n by (simp add: pos_less_divide_eq)
    with lo show "real i * (1 - 1 / 2 ^ 53) / real n \<le> rnd \<and> rnd < real (i + 1) / real n"
      unfolding c_def by blast
  }
  {
    assume lo: "real i / real n \<le> rnd"
      and hi: "rnd < real (i + 1) * (1 - 1 / 2 ^ 53) / real n"
    from lo n have "real_of_int (int i) \<le> x" unfolding x_def by (simp add: pos_divide_le_eq)
    from roundDouble_int_bounds(1) [OF x0 x53 this]
    have a: "real_of_int (int i) \<le> roundDouble x" .
    from hi n have "x < real (i + 1) * (1 - 1 / c)"
      unfolding x_def c_def by (simp add: pos_less_divide_eq)
    then have "x < real (i + 1) * (c - 1) / c" unfolding sc .
    then have "x * c < real (i + 1) * (c - 1)" using c by (simp add: pos_less_divide_eq)
    then have "x * 2 ^ 53 \<le> real (i + 1) * (2 ^ 53 - 1)" unfolding c_def by simp
    moreover have "1 \<le> real (i + 1)" by simp
    ultimately have "roundDouble x < real (i + 1)" by (intro roundDouble_below [OF x0])
    then have "roundDouble x < real_of_int (int i) + 1" by simp
    with a have "\<lfloor>roundDouble x\<rfloor> = int i" by (simp only: floor_eq_iff)
    then show "pickIndex rnd n = int i" unfolding pickIndex_def x_def .
  }
qed

lemma quantum_eval:
  assumes "2 ^ k \<le> x * 2 ^ 1074" and "x * 2 ^ 1074 < 2 ^ Suc k"
  shows "quantum x = 2 ^ (Suc k - 53)"
proof -
  define X where "X = x * 2 ^ 1074"
  define N where "N = nat \<lfloor>X\<rfloor>"
  have "(0::real) < 2 ^ k" by simp
  with assms(1) have X0: "0 < X" unfolding X_def by linarith
  have S: "(0::real) < 2 ^ 1074" by (rule zero_less_power) simp
  have x0: "0 \<le> x"
  proof (rule ccontr)
    assume "\<not> 0 \<le> x"
    then have "x * 2 ^ 1074 < 0" using S by (simp only: mult_less_0_iff) simp
    with X0 show False unfolding X_def by simp
  qed
  from assms(1) have "real_of_int (2 ^ k) \<le> X" unfolding X_def by simp
  then have "2 ^ k \<le> \<lfloor>X\<rfloor>" by (simp only: le_floor_iff)
  then have lo: "2 ^ k \<le> N" unfolding N_def by (simp add: le_nat_iff)
  from assms(2) have "X < real_of_int (2 ^ Suc k)" unfolding X_def by simp
  then have "\<lfloor>X\<rfloor> < 2 ^ Suc k" by (simp only: floor_less_iff)
  then have hi: "N < 2 ^ Suc k" unfolding N_def using X0 by (simp add: nat_less_iff)
  from lo have "Suc k \<le> floorlog 2 N" by (intro floorlog_ge_SucI) simp_all
  moreover from hi have "floorlog 2 N \<le> Suc k" by (intro floorlog_leI) simp_all
  ultimately have "floorlog 2 N = Suc k" by simp
  then show ?thesis using quantum_eq [OF x0] unfolding N_def X_def by simp
qed

lemma roundDouble_zero: "roundDouble 0 = 0"
  by (simp add: roundDouble_def roundHalfEven_def)

lemma pickIndex_zero: "pickIndex 0 n = 0"
  by (simp add: pickIndex_def roundDouble_zero)

lemma isDouble_zero: "isDouble 0"
  by (simp add: isDouble_def roundDouble_zero)

lemma quantum_half: "quantum (1 / 2) = 2 ^ 1021"
  using quantum_eval [of 1073 "1 / 2"] by simp

lemma isDouble_half: "isDouble (1 / 2)"
  by (simp add: isDouble_def roundDouble_def quantum_half roundHalfEven_def)

lemma quantum_one: "quantum 1 = 2 ^ 1022"
  using quantum_eval [of 1074 1] by simp

lemma pickIndex_half_two: "pickIndex (1 / 2) 2 = 1"
  by (simp add: pickIndex_def roundDouble_def quantum_one roundHalfEven_def)

lemma roundDouble_eval:
  assumes "2 ^ k \<le> x * 2 ^ 1074" and "x * 2 ^ 1074 < 2 ^ Suc k"
  shows "roundDouble x =
     real_of_int (roundHalfEven (x * 2 ^ 1074 / 2 ^ (Suc k - 53))) * 2 ^ (Suc k - 53) / 2 ^ 1074"
  unfolding roundDouble_def quantum_eval [OF assms] by (simp only: of_nat_power of_nat_numeral)

lemma isDouble_tie: "isDouble tie"
  unfolding tie_def using roundDouble_eval [of 1073 "3752999689475413 / 2 ^ 52"]
  by (simp add: isDouble_def roundHalfEven_def)

lemma roundDouble_tie: "roundDouble (tie * 6) = 5"
  unfolding tie_def using roundDouble_eval [of 1076 "3752999689475413 / 2 ^ 52 * 6"]
  by (simp add: roundHalfEven_def)

lemma pickIndex_tie: "pickIndex tie 6 = 5"
  using roundDouble_tie by (simp add: pickIndex_def)

section \<open>Evaluation of the definitions\<close>

lemmas example_defs = vase_def coin_def bare_def spaces_def six_def

lemmas eval_defs =
  select_def eligible_def keep_def has_def initialBans_def pickIndex_zero artistOf_def
  firstContributor_def safe_def orDefault_def trim_def isWhiteSpace_def normalized_def
  Let_def

section \<open>The filter\<close>

lemma filterE_total:
  "(\<And>x. p x = Inr (q x)) \<Longrightarrow> filterE p xs = Inr (filter q xs)"
  by (induction xs) simp_all

lemma keep_total:
  assumes "b ''Artist'' = Some A" and "b ''Culture'' = Some C" and "b ''Century'' = Some Ce"
  shows "keep b r =
    Inr (artistOf r \<notin> A \<and> safe (culture r) \<notin> C \<and> safe (century r) \<notin> Ce)"
  using assms by (simp add: keep_def has_def Let_def split: bool.splits)

lemma eligible_total:
  assumes "b ''Artist'' = Some A" and "b ''Culture'' = Some C" and "b ''Century'' = Some Ce"
  shows "eligible b rs =
    Inr (filter (\<lambda>r. artistOf r \<notin> A \<and> safe (culture r) \<notin> C \<and> safe (century r) \<notin> Ce) rs)"
  unfolding eligible_def by (rule filterE_total) (rule keep_total [OF assms])

lemma select_picked_member:
  assumes "select b rs rnd = Inr (Picked a)"
  shows "\<exists>el r. eligible b rs = Inr el \<and> r \<in> set el \<and> a = normalized r"
proof -
  from assms obtain el where el: "eligible b rs = Inr el"
    by (auto simp: select_def split: sum.splits)
  define i where "i = pickIndex rnd (length el)"
  from assms el have "0 \<le> i \<and> i < int (length el) \<and> a = normalized (el ! nat i)"
    unfolding i_def by (auto simp: select_def Let_def split: if_splits)
  then have "nat i < length el" and a: "a = normalized (el ! nat i)" by auto
  then have "el ! nat i \<in> set el" by simp
  with el a show ?thesis by blast
qed

text \<open>
  Claim C1. Under a ban list with the sets \<open>A\<close>, \<open>C\<close> and \<open>Ce\<close> for Artist, Culture and
  Century, the retained records are exactly the records of the batch whose normalized
  artist is not in \<open>A\<close>, whose normalized culture is not in \<open>C\<close> and whose normalized
  century is not in \<open>Ce\<close> (so a record matching any one ban is excluded), and every
  record the selection returns has its artist, culture and century outside the three sets.
\<close>

theorem select_respects_bans:
  assumes "b ''Artist'' = Some A" and "b ''Culture'' = Some C" and "b ''Century'' = Some Ce"
  shows "eligible b rs =
           Inr (filter (\<lambda>r. artistOf r \<notin> A \<and> safe (culture r) \<notin> C
                              \<and> safe (century r) \<notin> Ce) rs)
       \<and> (\<forall>a. select b rs rnd = Inr (Picked a) \<longrightarrow>
             Artist a \<notin> A \<and> Culture a \<notin> C \<and> Century a \<notin> Ce)"
proof (intro conjI allI impI)
  show el: "eligible b rs =
      Inr (filter (\<lambda>r. artistOf r \<notin> A \<and> safe (culture r) \<notin> C
                         \<and> safe (century r) \<notin> Ce) rs)"
    by (rule eligible_total [OF assms])
  fix a assume "select b rs rnd = Inr (Picked a)"
  then obtain el r where "eligible b rs = Inr el" and "r \<in> set el" and a: "a = normalized r"
    using select_picked_member by blast
  with el have r: "artistOf r \<notin> A \<and> safe (culture r) \<notin> C \<and> safe (century r) \<notin> Ce"
    by auto
  from r a show "Artist a \<notin> A" by (simp add: normalized_def)
  from r a show "Culture a \<notin> C" by (simp add: normalized_def)
  from r a show "Century a \<notin> Ce" by (simp add: normalized_def)
qed

theorem select_respects_bans_witness:
  "eligible (initialBans(''Culture'' \<mapsto> {''Greek''})) [vase, coin] = Inr [coin]
   \<and> select (initialBans(''Culture'' \<mapsto> {''Greek''})) [vase, coin] 0
       = Inr (Picked (normalized coin))
   \<and> Culture (normalized coin) \<notin> {''Greek''}"
proof -
  let ?b = "initialBans(''Culture'' \<mapsto> {''Greek''})"
  have A: "?b ''Artist'' = Some {}" by (simp add: initialBans_def)
  have C: "?b ''Culture'' = Some {''Greek''}" by (simp add: initialBans_def)
  have Ce: "?b ''Century'' = Some {}" by (simp add: initialBans_def)
  have s: "select ?b [vase, coin] 0 = Inr (Picked (normalized coin))"
    by (simp add: eval_defs example_defs)
  from select_respects_bans [OF A C Ce, of "[vase, coin]" 0] s
  show ?thesis by (simp add: eval_defs example_defs)
qed

section \<open>The pick\<close>

lemma select_in_range:
  assumes "eligible b rs = Inr el" and "el \<noteq> []"
    and "isDouble rnd" and "0 \<le> rnd" and "rnd < 1"
  shows "select b rs rnd = Inr (Picked (normalized (el ! nat (pickIndex rnd (length el)))))"
proof -
  from assms(2) have n: "0 < length el" by simp
  note r = pickIndex_range [OF assms(3) assms(4) assms(5) n]
  with assms(1) assms(2) show ?thesis by (simp add: select_def Let_def)
qed

text \<open>
  Claim C2 as stated fails: \<open>tie\<close> is a double in \<open>[0, 1)\<close> and \<open>\<lfloor>tie * 6\<rfloor> = 4\<close>, but the
  product rounds to the double \<open>5\<close>, so with six retained records the code picks the
  element at index 5, not the one at index 4.
\<close>

theorem select_uniform_pick_counterexample:
  "isDouble tie \<and> 0 \<le> tie \<and> tie < 1
   \<and> eligible initialBans six = Inr six \<and> length six = 6
   \<and> \<lfloor>tie * real (length six)\<rfloor> = 4
   \<and> select initialBans six tie = Inr (Picked (normalized (six ! 5)))
   \<and> normalized (six ! 5) \<noteq> normalized (six ! 4)"
proof -
  have e: "eligible initialBans six = Inr six" by (simp add: eval_defs example_defs)
  have l: "length six = 6" by (simp add: six_def)
  have f: "\<lfloor>tie * real (length six)\<rfloor> = 4" by (simp add: l tie_def)
  have t: "0 \<le> tie" "tie < 1" by (simp_all add: tie_def)
  have "six \<noteq> []" by (simp add: six_def)
  from select_in_range [OF e this isDouble_tie t]
  have s: "select initialBans six tie = Inr (Picked (normalized (six ! 5)))"
    by (simp add: l pickIndex_tie)
  have d: "normalized (six ! 5) \<noteq> normalized (six ! 4)"
    by (simp add: eval_defs example_defs)
  from isDouble_tie t e l f s d show ?thesis by blast
qed

text \<open>
  Claim C2, amended. When the retained list \<open>el\<close> has \<open>n\<close> elements, \<open>1 \<le> n \<le> 2 ^ 53\<close>
  (an array has fewer than \<open>2 ^ 32\<close>), and \<open>Math.random()\<close> returns the double \<open>rnd\<close> in
  \<open>[0, 1)\<close>, the selection returns the normalized form of the element of \<open>el\<close> at index
  \<open>\<lfloor>fl (rnd * n)\<rfloor>\<close>, where \<open>fl\<close> rounds the product to the nearest double, a tie
  going to the even one, as line 77 computes it. The index lies in \<open>0, \<dots>, n - 1\<close>.
  The choice is uniform up to that rounding: index \<open>i\<close> is chosen only when
  \<open>i * (1 - 2 ^ -53) / n \<le> rnd < (i + 1) / n\<close>, and it is chosen whenever
  \<open>i / n \<le> rnd < (i + 1) * (1 - 2 ^ -53) / n\<close>.
\<close>

theorem select_rounded_pick:
  assumes "eligible b rs = Inr el" and "el \<noteq> []" and "length el \<le> 2 ^ 53"
    and "isDouble rnd" and "0 \<le> rnd" and "rnd < 1"
  shows "pickIndex rnd (length el) = \<lfloor>roundDouble (rnd * real (length el))\<rfloor>
       \<and> 0 \<le> pickIndex rnd (length el) \<and> pickIndex rnd (length el) < int (length el)
       \<and> select b rs rnd = Inr (Picked (normalized (el ! nat (pickIndex rnd (length el)))))
       \<and> (\<forall>i. pickIndex rnd (length el) = int i \<longrightarrow>
               real i * (1 - 1 / 2 ^ 53) / real (length el) \<le> rnd
               \<and> rnd < real (i + 1) / real (length el))
       \<and> (\<forall>i. real i / real (length el) \<le> rnd
               \<and> rnd < real (i + 1) * (1 - 1 / 2 ^ 53) / real (length el) \<longrightarrow>
               pickIndex rnd (length el) = int i)"
proof (intro conjI allI impI)
  from assms(2) have n: "0 < length el" by simp
  show "pickIndex rnd (length el) = \<lfloor>roundDouble (rnd * real (length el))\<rfloor>"
    by (rule pickIndex_def)
  show "0 \<le> pickIndex rnd (length el)"
    by (rule pickIndex_range(1) [OF assms(4) assms(5) assms(6) n])
  show "pickIndex rnd (length el) < int (length el)"
    by (rule pickIndex_range(2) [OF assms(4) assms(5) assms(6) n])
  show "select b rs rnd = Inr (Picked (normalized (el ! nat (pickIndex rnd (length el)))))"
    by (rule select_in_range [OF assms(1) assms(2) assms(4) assms(5) assms(6)])
  fix i
  {
    assume p: "pickIndex rnd (length el) = int i"
    from pickIndex_interval(1) [OF assms(5) assms(6) n assms(3) p]
    show "real i * (1 - 1 / 2 ^ 53) / real (length el) \<le> rnd"
      and "rnd < real (i + 1) / real (length el)"
      by blast+
  }
  {
    assume "real i / real (length el) \<le> rnd
      \<and> rnd < real (i + 1) * (1 - 1 / 2 ^ 53) / real (length el)"
    then have lo: "real i / real (length el) \<le> rnd"
      and hi: "rnd < real (i + 1) * (1 - 1 / 2 ^ 53) / real (length el)"
      by blast+
    show "pickIndex rnd (length el) = int i"
      by (rule pickIndex_interval(2) [OF assms(5) assms(6) n assms(3) lo hi])
  }
qed

theorem select_rounded_pick_witness:
  "eligible initialBans six = Inr six \<and> length six = 6 \<and> isDouble tie
   \<and> pickIndex tie (length six) = 5
   \<and> select initialBans six tie = Inr (Picked (normalized bare))
   \<and> 5 * (1 - 1 / 2 ^ 53) / 6 \<le> tie \<and> tie < 6 / 6
   \<and> eligible initialBans [vase, coin] = Inr [vase, coin] \<and> isDouble (1 / 2)
   \<and> pickIndex (1 / 2) (length [vase, coin]) = 1
   \<and> select initialBans [vase, coin] (1 / 2) = Inr (Picked (normalized coin))"
proof -
  have e: "eligible initialBans six = Inr six" by (simp add: eval_defs example_defs)
  have l: "length six = 6" by (simp add: six_def)
  have n: "six \<noteq> []" and m: "length six \<le> 2 ^ 53" by (simp_all add: six_def)
  have t: "0 \<le> tie" "tie < 1" by (simp_all add: tie_def)
  note a = select_rounded_pick [OF e n m isDouble_tie t]
  have p: "pickIndex tie (length six) = 5" by (simp add: l pickIndex_tie)
  from a p have s: "select initialBans six tie = Inr (Picked (normalized (six ! 5)))"
    by simp
  have "six ! 5 = bare" by (simp add: six_def)
  with s have s': "select initialBans six tie = Inr (Picked (normalized bare))" by simp
  from a have "pickIndex tie (length six) = int 5 \<longrightarrow>
      real 5 * (1 - 1 / 2 ^ 53) / real (length six) \<le> tie
      \<and> tie < real (5 + 1) / real (length six)"
    by blast
  with p l have i: "5 * (1 - 1 / 2 ^ 53) / 6 \<le> tie \<and> tie < 6 / 6" by simp
  have e2: "eligible initialBans [vase, coin] = Inr [vase, coin]"
    by (simp add: eval_defs example_defs)
  have h: "(0::real) \<le> 1 / 2" "(1 / 2::real) < 1" by simp_all
  have "[vase, coin] \<noteq> []" and "length [vase, coin] \<le> 2 ^ 53" by simp_all
  note a2 = select_rounded_pick [OF e2 this isDouble_half h]
  have l2: "length [vase, coin] = 2" by simp
  have p2: "pickIndex (1 / 2) (length [vase, coin]) = 1"
    unfolding l2 by (rule pickIndex_half_two)
  from a2 p2 have s2: "select initialBans [vase, coin] (1 / 2) = Inr (Picked (normalized coin))"
    by simp
  from e l isDouble_tie p s' i e2 isDouble_half p2 s2 show ?thesis by blast
qed

section \<open>The empty result\<close>

lemma select_no_exception:
  assumes "isBanSet b" and "isDouble rnd" and "0 \<le> rnd" and "rnd < 1"
  shows "select b rs rnd \<noteq> Inl e"
proof -
  from assms(1) obtain A C Ce where
    k: "b ''Artist'' = Some A" "b ''Culture'' = Some C" "b ''Century'' = Some Ce"
    by (auto simp: isBanSet_def)
  obtain el where el: "eligible b rs = Inr el"
    using eligible_total [OF k] by blast
  show ?thesis
  proof (cases "el = []")
    case True
    with el show ?thesis by (simp add: select_def)
  next
    case False
    from select_in_range [OF el False assms(2) assms(3) assms(4)] show ?thesis by simp
  qed
qed

text \<open>
  Claim C3. The selection ends with the empty result exactly when the retained list is
  empty; on an empty batch it ends with the empty result under every ban list; and under
  a ban list holding the three tracked sets, with the random value a double in
  \<open>[0, 1)\<close>, it throws no exception, so the empty result is its only failure.
\<close>

theorem select_empty_result:
  "(select b rs rnd = Inr EmptyResult) = (eligible b rs = Inr [])
   \<and> select b [] rnd = Inr EmptyResult
   \<and> (isBanSet b \<and> isDouble rnd \<and> 0 \<le> rnd \<and> rnd < 1 \<longrightarrow>
        (\<forall>e. select b rs rnd \<noteq> Inl e))"
proof (intro conjI impI allI)
  show "(select b rs rnd = Inr EmptyResult) = (eligible b rs = Inr [])"
    by (auto simp: select_def Let_def split: sum.splits)
  show "select b [] rnd = Inr EmptyResult"
    by (simp add: select_def eligible_def)
  fix e assume "isBanSet b \<and> isDouble rnd \<and> 0 \<le> rnd \<and> rnd < 1"
  then show "select b rs rnd \<noteq> Inl e"
    using select_no_exception by blast
qed

theorem select_empty_result_witness:
  "isBanSet (initialBans(''Culture'' \<mapsto> {''Greek''})) \<and> isDouble (1 / 2)
   \<and> eligible (initialBans(''Culture'' \<mapsto> {''Greek''})) [vase] = Inr []
   \<and> select (initialBans(''Culture'' \<mapsto> {''Greek''})) [vase] (1 / 2) = Inr EmptyResult
   \<and> select (initialBans(''Culture'' \<mapsto> {''Greek''})) [vase] (1 / 2) \<noteq> Inl TypeError"
proof -
  let ?b = "initialBans(''Culture'' \<mapsto> {''Greek''})"
  have w: "isBanSet ?b" by (simp add: isBanSet_def initialBans_def)
  have e: "eligible ?b [vase] = Inr []" by (simp add: eval_defs example_defs)
  from select_empty_result [of ?b "[vase]" "1 / 2"] w e isDouble_half show ?thesis by simp
qed

section \<open>Normalization\<close>

lemma trim_blank:
  assumes "list_all isWhiteSpace s"
  shows "trim s = []"
proof -
  from assms have "dropWhile isWhiteSpace s = []"
    by (simp add: list_all_iff)
  then show ?thesis unfolding trim_def by (simp only: rev.simps dropWhile.simps)
qed

lemma safe_blank: "blank v \<Longrightarrow> safe v = ''N/A''"
  by (cases v) (simp_all add: safe_def orDefault_def trim_blank)

lemma orDefault_falsy: "\<not> truthy v \<Longrightarrow> orDefault v d = d"
  by (simp add: orDefault_def)

text \<open>
  Claim C4 as stated fails: a title, date, medium or image URL made of a single space
  is blank, and the code passes it through unchanged, because these four fields go
  through \<open>||\<close> and not through \<open>safe\<close>.
\<close>

theorem normalized_blank_counterexample:
  "blank (title spaces) \<and> Title (normalized spaces) = '' '' \<and> Title (normalized spaces) \<noteq> ''N/A''
   \<and> blank (dated spaces) \<and> Date (normalized spaces) \<noteq> ''N/A''
   \<and> blank (medium spaces) \<and> Medium (normalized spaces) \<noteq> ''N/A''
   \<and> blank (primaryimageurl spaces) \<and> Image_url (normalized spaces) \<noteq> []"
  by (simp add: spaces_def normalized_def orDefault_def isWhiteSpace_def)

text \<open>
  Claim C4, amended. Normalization maps each missing (absent or \<open>null\<close>) or empty
  source field among title, artist, culture, century, date and medium to \<open>"N/A"\<close>, and
  a missing or empty image URL to \<open>""\<close>; an artist, culture or century made of white
  space only is mapped to \<open>"N/A"\<close> as well.
\<close>

theorem normalized_blank_fields:
  "(\<not> truthy (title r) \<longrightarrow> Title (normalized r) = ''N/A'')
   \<and> (blank (firstContributor r) \<longrightarrow> Artist (normalized r) = ''N/A'')
   \<and> (blank (culture r) \<longrightarrow> Culture (normalized r) = ''N/A'')
   \<and> (blank (century r) \<longrightarrow> Century (normalized r) = ''N/A'')
   \<and> (\<not> truthy (dated r) \<longrightarrow> Date (normalized r) = ''N/A'')
   \<and> (\<not> truthy (medium r) \<longrightarrow> Medium (normalized r) = ''N/A'')
   \<and> (\<not> truthy (primaryimageurl r) \<longrightarrow> Image_url (normalized r) = [])"
  by (simp add: normalized_def artistOf_def safe_blank orDefault_falsy)

theorem normalized_blank_fields_witness:
  "\<not> truthy (title bare) \<and> Title (normalized bare) = ''N/A''
   \<and> blank (firstContributor bare) \<and> Artist (normalized bare) = ''N/A''
   \<and> blank (culture bare) \<and> Culture (normalized bare) = ''N/A''
   \<and> blank (century bare) \<and> Century (normalized bare) = ''N/A''
   \<and> \<not> truthy (dated bare) \<and> Date (normalized bare) = ''N/A''
   \<and> \<not> truthy (medium bare) \<and> Medium (normalized bare) = ''N/A''
   \<and> \<not> truthy (primaryimageurl bare) \<and> Image_url (normalized bare) = []
   \<and> blank (firstContributor spaces) \<and> Artist (normalized spaces) = ''N/A''
   \<and> blank (culture spaces) \<and> Culture (normalized spaces) = ''N/A''
   \<and> blank (century spaces) \<and> Century (normalized spaces) = ''N/A''"
proof -
  have b: "\<not> truthy (title bare)" "blank (firstContributor bare)" "blank (culture bare)"
    "blank (century bare)" "\<not> truthy (dated bare)" "\<not> truthy (medium bare)"
    "\<not> truthy (primaryimageurl bare)"
    by (simp_all add: bare_def firstContributor_def)
  have s: "blank (firstContributor spaces)" "blank (culture spaces)" "blank (century spaces)"
    by (simp_all add: spaces_def firstContributor_def isWhiteSpace_def)
  from normalized_blank_fields [of bare] normalized_blank_fields [of spaces] b s
  show ?thesis by blast
qed

section \<open>Ban management\<close>

lemma tracked_not_inherited:
  "attr \<in> {''Artist'', ''Culture'', ''Century''} \<Longrightarrow> attr \<notin> set objectPrototype"
  by (auto simp: objectPrototype_def)

lemma newSet_own:
  "attr \<notin> set objectPrototype \<Longrightarrow>
     newSet prev attr = Inr (case prev attr of Some s \<Rightarrow> s | None \<Rightarrow> {})"
  by (simp add: newSet_def split: option.splits)

lemma addBan_own:
  assumes "attr \<notin> set objectPrototype"
  shows "addBan attr val b =
     Inr (if val = [] \<or> val = ''N/A'' then b
          else b(attr \<mapsto> insert val (case b attr of Some s \<Rightarrow> s | None \<Rightarrow> {})))"
proof (cases "val = [] \<or> val = ''N/A''")
  case True
  then show ?thesis by (auto simp: addBan_def)
next
  case False
  then show ?thesis by (simp add: addBan_def newSet_own [OF assms])
qed

lemma removeBan_own:
  assumes "attr \<notin> set objectPrototype"
  shows "removeBan attr val b =
     Inr (b(attr \<mapsto> (case b attr of Some s \<Rightarrow> s | None \<Rightarrow> {}) - {val}))"
  by (simp add: removeBan_def newSet_own [OF assms])

lemma addBan_frame: "addBan attr val b = Inr b' \<Longrightarrow> k \<noteq> attr \<Longrightarrow> b' k = b k"
  by (auto simp: addBan_def split: if_splits sum.splits)

lemma removeBan_frame: "removeBan attr val b = Inr b' \<Longrightarrow> k \<noteq> attr \<Longrightarrow> b' k = b k"
  by (auto simp: removeBan_def split: sum.splits)

lemma ban_failure:
  "addBan attr val b = Inl e \<or> removeBan attr val b = Inl e \<Longrightarrow>
     e = TypeError \<and> attr \<in> set objectPrototype"
  by (auto simp: addBan_def removeBan_def newSet_def split: if_splits sum.splits option.splits)

lemma reachable_sentinelFree: "reachable b \<Longrightarrow> sentinelFree b"
proof (induction rule: reachable.induct)
  case reach_init
  show ?case by (simp add: sentinelFree_def initialBans_def)
next
  case (reach_add b attr val b')
  then show ?case
    by (auto simp: sentinelFree_def addBan_def newSet_def
             split: if_splits sum.splits option.splits)
next
  case (reach_remove b attr val b')
  then show ?case
    by (auto simp: sentinelFree_def removeBan_def newSet_def
             split: if_splits sum.splits option.splits)
next
  case (reach_clear b)
  show ?case by (simp add: sentinelFree_def clearBans_def)
qed

text \<open>Every reachable ban list holds the three tracked sets.\<close>

lemma reachable_isBanSet: "reachable b \<Longrightarrow> isBanSet b"
proof (induction rule: reachable.induct)
  case reach_init
  show ?case by (simp add: isBanSet_def initialBans_def)
next
  case (reach_add b attr val b')
  then show ?case
    by (auto simp: isBanSet_def addBan_def split: if_splits sum.splits)
next
  case (reach_remove b attr val b')
  then show ?case
    by (auto simp: isBanSet_def removeBan_def split: if_splits sum.splits)
next
  case (reach_clear b)
  show ?case by (simp add: isBanSet_def clearBans_def)
qed

text \<open>
  Claim C5. In every ban list reachable from the initial one, no set holds the sentinel
  \<open>"N/A"\<close>; \<open>addBan\<close> returns the ban list unchanged when the value is empty or the
  sentinel; every set after \<open>removeBan\<close> is empty or a subset of the set it replaces;
  and every set after Clear Bans is empty.
\<close>

theorem sentinel_never_banned:
  "(reachable b \<longrightarrow> (\<forall>attr S. b attr = Some S \<longrightarrow> ''N/A'' \<notin> S))
   \<and> (val = [] \<or> val = ''N/A'' \<longrightarrow> addBan attr val b = Inr b)
   \<and> (\<forall>b' k S'. removeBan attr val b = Inr b' \<longrightarrow> b' k = Some S' \<longrightarrow>
         (\<exists>S. b k = Some S \<and> S' \<subseteq> S) \<or> S' = {})
   \<and> (\<forall>k S'. clearBans b k = Some S' \<longrightarrow> S' = {})"
proof (intro conjI impI allI)
  assume "reachable b"
  then have "sentinelFree b" by (rule reachable_sentinelFree)
  then show "\<And>attr S. b attr = Some S \<Longrightarrow> ''N/A'' \<notin> S"
    by (simp add: sentinelFree_def)
next
  assume "val = [] \<or> val = ''N/A''"
  then show "addBan attr val b = Inr b" by (auto simp: addBan_def)
next
  fix b' k S'
  assume "removeBan attr val b = Inr b'" and "b' k = Some S'"
  then show "(\<exists>S. b k = Some S \<and> S' \<subseteq> S) \<or> S' = {}"
    by (auto simp: removeBan_def newSet_def split: sum.splits option.splits if_splits)
next
  fix k S'
  assume "clearBans b k = Some S'"
  then show "S' = {}" by (auto simp: clearBans_def split: if_splits)
qed

theorem sentinel_never_banned_witness:
  "reachable (initialBans(''Artist'' \<mapsto> {''Monet''}))
   \<and> ''N/A'' \<notin> {''Monet''}
   \<and> addBan ''Culture'' ''N/A'' (initialBans(''Artist'' \<mapsto> {''Monet''}))
       = Inr (initialBans(''Artist'' \<mapsto> {''Monet''}))
   \<and> addBan ''Culture'' [] (initialBans(''Artist'' \<mapsto> {''Monet''}))
       = Inr (initialBans(''Artist'' \<mapsto> {''Monet''}))
   \<and> removeBan ''Artist'' ''Monet'' (initialBans(''Artist'' \<mapsto> {''Monet''}))
       = Inr (initialBans(''Artist'' \<mapsto> {}))
   \<and> clearBans (initialBans(''Artist'' \<mapsto> {''Monet''})) ''Artist'' = Some {}"
proof -
  let ?b = "initialBans(''Artist'' \<mapsto> {''Monet''})"
  have a: "addBan ''Artist'' ''Monet'' initialBans = Inr ?b"
    by (simp add: addBan_def newSet_def initialBans_def)
  have r: "reachable ?b" by (rule reach_add [OF reach_init a])
  have rm: "removeBan ''Artist'' ''Monet'' ?b = Inr (initialBans(''Artist'' \<mapsto> {}))"
    by (simp add: removeBan_def newSet_def initialBans_def)
  have c: "clearBans ?b ''Artist'' = Some {}" by (simp add: clearBans_def)
  have k: "?b ''Artist'' = Some {''Monet''}" by simp
  from sentinel_never_banned [of ?b "''N/A''" "''Culture''"] r k
  have 1: "''N/A'' \<notin> {''Monet''}" by blast
  from sentinel_never_banned [of ?b "''N/A''" "''Culture''"]
  have 2: "addBan ''Culture'' ''N/A'' ?b = Inr ?b" by blast
  from sentinel_never_banned [of ?b "[]" "''Culture''"]
  have 3: "addBan ''Culture'' [] ?b = Inr ?b" by blast
  from r 1 2 3 rm c show ?thesis by blast
qed

text \<open>
  Claim C9. For an attribute among Artist, Culture and Century, \<open>addBan\<close> and
  \<open>removeBan\<close> succeed and leave the set under every other property name as it was.
\<close>

theorem ban_frame:
  assumes "attr \<in> {''Artist'', ''Culture'', ''Century''}" and "k \<noteq> attr"
  shows "(\<exists>b'. addBan attr val b = Inr b' \<and> b' k = b k)
       \<and> (\<exists>b'. removeBan attr val b = Inr b' \<and> b' k = b k)"
proof -
  from assms(1) have ni: "attr \<notin> set objectPrototype" by (rule tracked_not_inherited)
  obtain b1 where b1: "addBan attr val b = Inr b1"
    using addBan_own [OF ni] by blast
  obtain b2 where b2: "removeBan attr val b = Inr b2"
    using removeBan_own [OF ni] by blast
  from b1 assms(2) have "b1 k = b k" by (rule addBan_frame)
  moreover from b2 assms(2) have "b2 k = b k" by (rule removeBan_frame)
  ultimately show ?thesis using b1 b2 by simp
qed

theorem ban_frame_witness:
  "addBan ''Culture'' ''Greek'' initialBans = Inr (initialBans(''Culture'' \<mapsto> {''Greek''}))
   \<and> (initialBans(''Culture'' \<mapsto> {''Greek''})) ''Artist'' = initialBans ''Artist''
   \<and> removeBan ''Culture'' ''Greek'' (initialBans(''Culture'' \<mapsto> {''Greek''})) = Inr initialBans"
proof -
  have m: "''Culture'' \<in> {''Artist'', ''Culture'', ''Century''}" by simp
  have n: "''Artist'' \<noteq> ''Culture''" by simp
  from ban_frame [OF m n, of "''Greek''" initialBans]
       ban_frame [OF m n, of "''Greek''" "initialBans(''Culture'' \<mapsto> {''Greek''})"]
  show ?thesis
    by (simp add: addBan_def removeBan_def newSet_def initialBans_def fun_upd_twist)
qed

section \<open>Attribute names outside the tracked three\<close>

lemma keep_cong_tracked:
  assumes "b' ''Artist'' = b ''Artist''" and "b' ''Culture'' = b ''Culture''"
    and "b' ''Century'' = b ''Century''"
  shows "keep b' = keep b"
proof (rule ext)
  fix r
  have "\<And>v. has b' ''Artist'' v = has b ''Artist'' v"
    and "\<And>v. has b' ''Culture'' v = has b ''Culture'' v"
    and "\<And>v. has b' ''Century'' v = has b ''Century'' v"
    by (simp_all add: has_def assms)
  then show "keep b' r = keep b r" by (simp only: keep_def)
qed

lemma select_cong_tracked:
  assumes "b' ''Artist'' = b ''Artist''" and "b' ''Culture'' = b ''Culture''"
    and "b' ''Century'' = b ''Century''"
  shows "select b' rs rnd = select b rs rnd"
  by (simp add: select_def eligible_def keep_cong_tracked [OF assms])

text \<open>
  Claim C7 as stated fails: with the attribute name \<open>Title\<close> both operations succeed
  and store a set under that name; nothing checks the name.
\<close>

theorem untracked_attribute_counterexample:
  "''Title'' \<notin> {''Artist'', ''Culture'', ''Century''}
   \<and> addBan ''Title'' ''Monet'' initialBans = Inr (initialBans(''Title'' \<mapsto> {''Monet''}))
   \<and> removeBan ''Title'' ''Monet'' initialBans = Inr (initialBans(''Title'' \<mapsto> {}))
   \<and> initialBans(''Title'' \<mapsto> {''Monet''}) \<noteq> initialBans"
proof -
  have "(initialBans(''Title'' \<mapsto> {''Monet''})) ''Title'' \<noteq> initialBans ''Title''"
    by (simp add: initialBans_def)
  then have "initialBans(''Title'' \<mapsto> {''Monet''}) \<noteq> initialBans"
    by (rule contrapos_nn) (rule arg_cong [where f = "\<lambda>m. m ''Title''"])
  then show ?thesis
    by (simp add: addBan_def removeBan_def newSet_def initialBans_def objectPrototype_def)
qed

text \<open>
  Claim C7, amended. With an attribute name other than Artist, Culture and Century,
  \<open>addBan\<close> and \<open>removeBan\<close> raise no invalid-attribute condition. When they succeed,
  the Artist, Culture and Century sets and every selection are as before. For a name
  that is not inherited from \<open>Object.prototype\<close> they succeed: \<open>removeBan\<close> stores under
  that name the set found there (the empty set when there is none) without the value;
  \<open>addBan\<close> returns the ban list unchanged when the value is empty or \<open>"N/A"\<close>, and
  otherwise stores under that name the set found there with the value added. Their only
  failure is the \<open>TypeError\<close> of \<open>new Set\<close> on an inherited property.
\<close>

theorem untracked_attribute:
  assumes "attr \<notin> {''Artist'', ''Culture'', ''Century''}"
  shows "(\<forall>b'. addBan attr val b = Inr b' \<or> removeBan attr val b = Inr b' \<longrightarrow>
            b' ''Artist'' = b ''Artist'' \<and> b' ''Culture'' = b ''Culture''
            \<and> b' ''Century'' = b ''Century'' \<and> select b' rs rnd = select b rs rnd)
       \<and> (attr \<notin> set objectPrototype \<longrightarrow>
            addBan attr val b =
              Inr (if val = [] \<or> val = ''N/A'' then b
                   else b(attr \<mapsto> insert val (case b attr of Some s \<Rightarrow> s | None \<Rightarrow> {})))
            \<and> removeBan attr val b =
              Inr (b(attr \<mapsto> (case b attr of Some s \<Rightarrow> s | None \<Rightarrow> {}) - {val})))
       \<and> (\<forall>e. addBan attr val b = Inl e \<or> removeBan attr val b = Inl e \<longrightarrow>
            e = TypeError \<and> attr \<in> set objectPrototype)"
proof (intro conjI allI impI)
  fix b' assume ok: "addBan attr val b = Inr b' \<or> removeBan attr val b = Inr b'"
  from assms have ne: "''Artist'' \<noteq> attr" "''Culture'' \<noteq> attr" "''Century'' \<noteq> attr"
    by auto
  from ok ne(1) show a: "b' ''Artist'' = b ''Artist''"
    by (auto dest: addBan_frame removeBan_frame)
  from ok ne(2) show c: "b' ''Culture'' = b ''Culture''"
    by (auto dest: addBan_frame removeBan_frame)
  from ok ne(3) show ce: "b' ''Century'' = b ''Century''"
    by (auto dest: addBan_frame removeBan_frame)
  show "select b' rs rnd = select b rs rnd"
    by (rule select_cong_tracked [OF a c ce])
next
  assume ni: "attr \<notin> set objectPrototype"
  show "addBan attr val b =
      Inr (if val = [] \<or> val = ''N/A'' then b
           else b(attr \<mapsto> insert val (case b attr of Some s \<Rightarrow> s | None \<Rightarrow> {})))"
    by (rule addBan_own [OF ni])
  show "removeBan attr val b =
      Inr (b(attr \<mapsto> (case b attr of Some s \<Rightarrow> s | None \<Rightarrow> {}) - {val}))"
    by (rule removeBan_own [OF ni])
next
  fix e assume f: "addBan attr val b = Inl e \<or> removeBan attr val b = Inl e"
  from ban_failure [OF f] show "e = TypeError" and "attr \<in> set objectPrototype"
    by simp_all
qed

theorem untracked_attribute_witness:
  "''Medium'' \<notin> {''Artist'', ''Culture'', ''Century''}
   \<and> ''Medium'' \<notin> set objectPrototype
   \<and> addBan ''Medium'' ''Clay'' initialBans = Inr (initialBans(''Medium'' \<mapsto> {''Clay''}))
   \<and> (initialBans(''Medium'' \<mapsto> {''Clay''})) ''Artist'' = initialBans ''Artist''
   \<and> select (initialBans(''Medium'' \<mapsto> {''Clay''})) [vase] 0 = select initialBans [vase] 0
   \<and> addBan ''constructor'' ''Clay'' initialBans = Inl TypeError
   \<and> ''constructor'' \<in> set objectPrototype"
proof -
  let ?b' = "initialBans(''Medium'' \<mapsto> {''Clay''})"
  have m: "''Medium'' \<notin> {''Artist'', ''Culture'', ''Century''}" by simp
  have p: "''Medium'' \<notin> set objectPrototype" by (simp add: objectPrototype_def)
  have i: "initialBans ''Medium'' = None" by (simp add: initialBans_def)
  note u = untracked_attribute [OF m, of "''Clay''" initialBans "[vase]" 0]
  from u p have "addBan ''Medium'' ''Clay'' initialBans =
      Inr (if ''Clay'' = [] \<or> ''Clay'' = ''N/A'' then initialBans
           else initialBans(''Medium'' \<mapsto>
                  insert ''Clay'' (case initialBans ''Medium'' of Some s \<Rightarrow> s | None \<Rightarrow> {})))"
    by blast
  then have a: "addBan ''Medium'' ''Clay'' initialBans = Inr ?b'"
    by (simp add: i)
  from u a have f: "?b' ''Artist'' = initialBans ''Artist''
      \<and> select ?b' [vase] 0 = select initialBans [vase] 0"
    by blast
  have c: "''constructor'' \<notin> {''Artist'', ''Culture'', ''Century''}" by simp
  have t: "addBan ''constructor'' ''Clay'' initialBans = Inl TypeError"
    by (simp add: addBan_def newSet_def initialBans_def objectPrototype_def)
  from untracked_attribute [OF c, of "''Clay''" initialBans] t
  have "''constructor'' \<in> set objectPrototype" by blast
  with m p a f t show ?thesis by blast
qed

section \<open>Clear Bans\<close>

text \<open>
  Claim C8. Clear Bans sets the Artist, Culture and Century sets to empty at once; a
  selection after it retains every record of the batch and returns what a selection
  under the initial, empty ban list returns.
\<close>

theorem clearBans_then_select:
  "clearBans b ''Artist'' = Some {} \<and> clearBans b ''Culture'' = Some {}
   \<and> clearBans b ''Century'' = Some {}
   \<and> eligible (clearBans b) rs = Inr rs
   \<and> select (clearBans b) rs rnd = select initialBans rs rnd"
proof -
  have a: "clearBans b ''Artist'' = Some {}" and c: "clearBans b ''Culture'' = Some {}"
    and ce: "clearBans b ''Century'' = Some {}"
    by (simp_all add: clearBans_def)
  have "eligible (clearBans b) rs = Inr rs"
    using eligible_total [OF a c ce, of rs] by simp
  moreover have "select (clearBans b) rs rnd = select initialBans rs rnd"
    by (rule select_cong_tracked) (simp_all add: clearBans_def initialBans_def)
  ultimately show ?thesis using a c ce by simp
qed

theorem clearBans_then_select_witness:
  "eligible (clearBans (initialBans(''Culture'' \<mapsto> {''Greek''}))) [vase, coin]
     = Inr [vase, coin]
   \<and> select (clearBans (initialBans(''Culture'' \<mapsto> {''Greek''}))) [vase, coin] 0
     = Inr (Picked (normalized vase))"
proof -
  have "select initialBans [vase, coin] 0 = Inr (Picked (normalized vase))"
    by (simp add: eval_defs example_defs)
  with clearBans_then_select [of "initialBans(''Culture'' \<mapsto> {''Greek''})" "[vase, coin]" 0]
  show ?thesis by simp
qed

section \<open>The discover cycle\<close>

lemma fetchArtwork_result:
  assumes "truthy apiKey"
  shows "fetchArtwork apiKey h rnd st =
     (case h of
        Rejected \<Rightarrow> st\<lparr>loading := False, error := CouldntFetch,
                        effects := effects st @ [ConsoleError]\<rparr>
      | Resolved recs \<Rightarrow>
          (case select (bans st) (artworksOf recs) rnd of
             Inl e \<Rightarrow> st\<lparr>loading := False, error := CouldntFetch,
                          effects := effects st @ [ConsoleError]\<rparr>
           | Inr EmptyResult \<Rightarrow> st\<lparr>loading := False, error := NothingFound\<rparr>
           | Inr (Picked a) \<Rightarrow> st\<lparr>loading := False, error := NoMessage, inputs := a\<rparr>))"
  using assms
  by (simp add: fetchArtwork_def tryBlock_def Let_def
           split: http.splits sum.splits selection.splits)

text \<open>
  Claim C6. A discover cycle leaves the displayed record as it was when the API key is
  missing, when the request is rejected, when the selection throws, and when the
  retained list is empty; the last three set the fetch-failure message, the
  fetch-failure message and the nothing-found message. The displayed record changes
  only when the request resolves and the selection picks a record, and it is then that
  record, with no message.
\<close>

theorem failed_cycle_keeps_inputs:
  "(\<not> truthy apiKey \<longrightarrow> inputs (fetchArtwork apiKey h rnd st) = inputs st)
   \<and> (truthy apiKey \<and> h = Rejected \<longrightarrow>
        inputs (fetchArtwork apiKey h rnd st) = inputs st
        \<and> error (fetchArtwork apiKey h rnd st) = CouldntFetch)
   \<and> (truthy apiKey \<and> h = Resolved recs
        \<and> select (bans st) (artworksOf recs) rnd = Inr EmptyResult \<longrightarrow>
        inputs (fetchArtwork apiKey h rnd st) = inputs st
        \<and> error (fetchArtwork apiKey h rnd st) = NothingFound)
   \<and> (truthy apiKey \<and> h = Resolved recs
        \<and> select (bans st) (artworksOf recs) rnd = Inl e \<longrightarrow>
        inputs (fetchArtwork apiKey h rnd st) = inputs st
        \<and> error (fetchArtwork apiKey h rnd st) = CouldntFetch)
   \<and> (inputs (fetchArtwork apiKey h rnd st) \<noteq> inputs st \<longrightarrow>
        (\<exists>rs a. truthy apiKey \<and> h = Resolved rs
           \<and> select (bans st) (artworksOf rs) rnd = Inr (Picked a)
           \<and> inputs (fetchArtwork apiKey h rnd st) = a
           \<and> error (fetchArtwork apiKey h rnd st) = NoMessage))"
proof (intro conjI impI)
  assume "\<not> truthy apiKey"
  then show "inputs (fetchArtwork apiKey h rnd st) = inputs st"
    by (simp add: fetchArtwork_def)
next
  assume "truthy apiKey \<and> h = Rejected"
  then show "inputs (fetchArtwork apiKey h rnd st) = inputs st"
    and "error (fetchArtwork apiKey h rnd st) = CouldntFetch"
    by (simp_all add: fetchArtwork_result)
next
  assume "truthy apiKey \<and> h = Resolved recs
    \<and> select (bans st) (artworksOf recs) rnd = Inr EmptyResult"
  then show "inputs (fetchArtwork apiKey h rnd st) = inputs st"
    and "error (fetchArtwork apiKey h rnd st) = NothingFound"
    by (simp_all add: fetchArtwork_result)
next
  assume "truthy apiKey \<and> h = Resolved recs
    \<and> select (bans st) (artworksOf recs) rnd = Inl e"
  then show "inputs (fetchArtwork apiKey h rnd st) = inputs st"
    and "error (fetchArtwork apiKey h rnd st) = CouldntFetch"
    by (simp_all add: fetchArtwork_result)
next
  assume ch: "inputs (fetchArtwork apiKey h rnd st) \<noteq> inputs st"
  have k: "truthy apiKey"
  proof (rule ccontr)
    assume "\<not> truthy apiKey"
    then have "inputs (fetchArtwork apiKey h rnd st) = inputs st"
      by (simp add: fetchArtwork_def)
    with ch show False by simp
  qed
  from ch k show "\<exists>rs a. truthy apiKey \<and> h = Resolved rs
           \<and> select (bans st) (artworksOf rs) rnd = Inr (Picked a)
           \<and> inputs (fetchArtwork apiKey h rnd st) = a
           \<and> error (fetchArtwork apiKey h rnd st) = NoMessage"
    by (auto simp: fetchArtwork_result [OF k] split: http.splits sum.splits selection.splits)
qed

theorem failed_cycle_keeps_inputs_witness:
  "inputs (fetchArtwork (Val ''key'') Rejected 0 viewing) = inputs viewing
   \<and> error (fetchArtwork (Val ''key'') Rejected 0 viewing) = CouldntFetch
   \<and> select (bans viewing) (artworksOf (Val [vase])) 0 = Inr EmptyResult
   \<and> inputs (fetchArtwork (Val ''key'') (Resolved (Val [vase])) 0 viewing) = inputs viewing
   \<and> error (fetchArtwork (Val ''key'') (Resolved (Val [vase])) 0 viewing) = NothingFound
   \<and> inputs (fetchArtwork Undefined (Resolved (Val [coin])) 0 viewing) = inputs viewing
   \<and> inputs (fetchArtwork (Val ''key'') (Resolved (Val [coin])) 0 viewing) = normalized coin
   \<and> normalized coin \<noteq> inputs viewing
   \<and> error (fetchArtwork (Val ''key'') (Resolved (Val [coin])) 0 viewing) = NoMessage"
proof -
  have k: "truthy (Val ''key'')" and u: "\<not> truthy Undefined" by simp_all
  have s: "select (bans viewing) (artworksOf (Val [vase])) 0 = Inr EmptyResult"
    by (simp add: viewing_def artworksOf_def eval_defs example_defs)
  have c: "select (bans viewing) (artworksOf (Val [coin])) 0 = Inr (Picked (normalized coin))"
    by (simp add: viewing_def artworksOf_def eval_defs example_defs)
  have n: "normalized coin \<noteq> inputs viewing"
    by (simp add: viewing_def eval_defs example_defs)
  have i: "inputs (fetchArtwork (Val ''key'') (Resolved (Val [coin])) 0 viewing) = normalized coin"
    using k c by (simp add: fetchArtwork_def tryBlock_def Let_def)
  note f1 = failed_cycle_keeps_inputs [of "Val ''key''" Rejected 0 viewing]
  note f2 = failed_cycle_keeps_inputs
    [of "Val ''key''" "Resolved (Val [vase])" 0 viewing "Val [vase]"]
  note f3 = failed_cycle_keeps_inputs [of Undefined "Resolved (Val [coin])" 0 viewing]
  note f4 = failed_cycle_keeps_inputs [of "Val ''key''" "Resolved (Val [coin])" 0 viewing]
  from f1 k have 1: "inputs (fetchArtwork (Val ''key'') Rejected 0 viewing) = inputs viewing
      \<and> error (fetchArtwork (Val ''key'') Rejected 0 viewing) = CouldntFetch"
    by blast
  from f2 k s have 2:
    "inputs (fetchArtwork (Val ''key'') (Resolved (Val [vase])) 0 viewing) = inputs viewing
     \<and> error (fetchArtwork (Val ''key'') (Resolved (Val [vase])) 0 viewing) = NothingFound"
    by blast
  from f3 u have 3:
    "inputs (fetchArtwork Undefined (Resolved (Val [coin])) 0 viewing) = inputs viewing"
    by blast
  from f4 i n have 4:
    "error (fetchArtwork (Val ''key'') (Resolved (Val [coin])) 0 viewing) = NoMessage"
    by metis
  from 1 2 3 4 s i n show ?thesis by blast
qed

text \<open>
  Claim C10. When the request resolves and \<open>records\<close> is absent or \<open>null\<close>, the cycle
  reports the nothing-found message, not the fetch-failure message, and leaves the
  displayed record as it was; nothing is logged.
\<close>

theorem missing_records_empty_batch:
  assumes "truthy apiKey" and "recs = Undefined \<or> recs = Null"
  shows "error (fetchArtwork apiKey (Resolved recs) rnd st) = NothingFound
       \<and> error (fetchArtwork apiKey (Resolved recs) rnd st) \<noteq> CouldntFetch
       \<and> inputs (fetchArtwork apiKey (Resolved recs) rnd st) = inputs st
       \<and> effects (fetchArtwork apiKey (Resolved recs) rnd st) = effects st"
proof -
  from assms(2) have "artworksOf recs = []" by (auto simp: artworksOf_def)
  then have "select (bans st) (artworksOf recs) rnd = Inr EmptyResult"
    by (simp add: select_def eligible_def)
  then show ?thesis by (simp add: fetchArtwork_result [OF assms(1)])
qed

theorem missing_records_empty_batch_witness:
  "error (fetchArtwork (Val ''key'') (Resolved Null) (1/2) initialApp) = NothingFound
   \<and> inputs (fetchArtwork (Val ''key'') (Resolved Null) (1/2) initialApp) = inputs initialApp
   \<and> error (fetchArtwork (Val ''key'') (Resolved Undefined) (1/2) viewing) = NothingFound
   \<and> inputs (fetchArtwork (Val ''key'') (Resolved Undefined) (1/2) viewing) = normalized vase"
proof -
  have k: "truthy (Val ''key'')" by simp
  from missing_records_empty_batch [OF k, of Null "1/2" initialApp]
       missing_records_empty_batch [OF k, of Undefined "1/2" viewing]
  show ?thesis by (simp add: viewing_def)
qed

end
